theory Spec2Isabelle
  imports Complex_Main "HOL-Library.AList"
begin

section \<open>Python values used by the ingestion code\<close>

text \<open>
  A Python \<open>str\<close> is modelled as a \<open>string\<close>: a list of code points below 256.
  A \<open>bytes\<close> object is a list of bytes, also a \<open>char list\<close>.
\<close>

type_synonym bytes = "char list"

text \<open>\<open>str(x)\<close> for the result of \<open>dict.get\<close> on string values: \<open>None\<close> prints as "None".\<close>

definition py_str :: "string option \<Rightarrow> string" where
  "py_str v = (case v of None \<Rightarrow> ''None'' | Some s \<Rightarrow> s)"

text \<open>
  The slice \<open>xs[i:j]\<close> with integer bounds: a negative bound counts from the end, and
  every bound is clamped to the list.
\<close>

definition py_bound :: "int \<Rightarrow> int \<Rightarrow> nat" where
  "py_bound n i = (if i < 0 then nat (max (i + n) 0) else nat (min i n))"

definition py_slice :: "'a list \<Rightarrow> int \<Rightarrow> int \<Rightarrow> 'a list" where
  "py_slice xs i j =
     (let n = int (length xs); lo = py_bound n i; hi = py_bound n j
      in take (hi - lo) (drop lo xs))"

text \<open>\<open>range(n)\<close>: empty when \<open>n \<le> 0\<close>.\<close>

definition py_range :: "int \<Rightarrow> int list" where
  "py_range n = [0..n - 1]"

text \<open>\<open>str.isspace\<close> on one code point below 256, and \<open>str.strip()\<close>.\<close>

definition py_isspace :: "char \<Rightarrow> bool" where
  "py_isspace c =
     (let n = (of_char c :: nat)
      in (9 \<le> n \<and> n \<le> 13) \<or> (28 \<le> n \<and> n \<le> 32) \<or> n = 133 \<or> n = 160)"

definition strip :: "string \<Rightarrow> string" where
  "strip s = rev (dropWhile py_isspace (rev (dropWhile py_isspace s)))"

definition startswith :: "string \<Rightarrow> string \<Rightarrow> bool" where
  "startswith s p = (take (length p) s = p)"

subsection \<open>\<open>json.dumps\<close> of a string and \<open>str.encode('utf-8')\<close>\<close>

definition hex_digit :: "nat \<Rightarrow> char" where
  "hex_digit d = (if d < 10 then char_of (48 + d) else char_of (87 + d))"

text \<open>The format \<open>{0:04x}\<close> of a code point below 65536.\<close>

definition hex4 :: "nat \<Rightarrow> string" where
  "hex4 n = [hex_digit (n div 4096 mod 16), hex_digit (n div 256 mod 16),
             hex_digit (n div 16 mod 16), hex_digit (n mod 16)]"

text \<open>
  The replacement of one character by the ASCII-only encoder of the \<open>json\<close> module:
  backslash and double quote are escaped, the characters from space to tilde stand for
  themselves, five control characters have short escapes and every other code point is
  written \<open>\uXXXX\<close>.
\<close>

definition json_escape :: "char \<Rightarrow> string" where
  "json_escape c =
     (if c = CHR 0x5C then [CHR 0x5C, CHR 0x5C]
      else if c = CHR 0x22 then [CHR 0x5C, CHR 0x22]
      else if c = CHR 0x08 then [CHR 0x5C, CHR ''b'']
      else if c = CHR 0x0C then [CHR 0x5C, CHR ''f'']
      else if c = CHR 0x0A then [CHR 0x5C, CHR ''n'']
      else if c = CHR 0x0D then [CHR 0x5C, CHR ''r'']
      else if c = CHR 0x09 then [CHR 0x5C, CHR ''t'']
      else if 32 \<le> (of_char c :: nat) \<and> (of_char c :: nat) \<le> 126 then [c]
      else [CHR 0x5C, CHR ''u''] @ hex4 (of_char c))"

definition json_dumps :: "string \<Rightarrow> string" where
  "json_dumps s = [CHR 0x22] @ concat (map json_escape s) @ [CHR 0x22]"

definition utf8_char :: "char \<Rightarrow> bytes" where
  "utf8_char c =
     (let n = (of_char c :: nat)
      in if n < 128 then [c] else [char_of (192 + n div 64), char_of (128 + n mod 64)])"

definition encode_utf8 :: "string \<Rightarrow> bytes" where
  "encode_utf8 s = concat (map utf8_char s)"

section \<open>Documents and the collaborators of the pipeline\<close>

text \<open>
  A langchain \<open>Document\<close>: the page text and the metadata dictionary. The dictionary
  is an association list in insertion order, its values are strings; \<open>dict.get\<close> is
  \<open>map_of\<close> and an item assignment is \<open>AList.update\<close>.
\<close>

record document =
  page_content :: string
  metadata :: "(string \<times> string) list"

text \<open>
  What the code can raise. \<open>LoadError\<close> is the failure of \<open>FAISS.load_local\<close>,
  \<open>SaveError\<close> that of \<open>save_local\<close>; \<open>EmbeddingError\<close>, \<open>ModelError\<close> and
  \<open>FetchError\<close> are failures of the embedding model, the chat model and the web loader;
  \<open>AssertionError\<close> is the refusal of the index to take a vector of another dimension.
\<close>

datatype error =
  LoadError | SaveError | EmbeddingError | ModelError | FetchError
  | ZeroDivisionError | AttributeError | AssertionError

text \<open>
  The library calls whose results the code does not control are parameters: the MD5 digest
  in hexadecimal, the embedding of a query, the answer of the chat model to a prompt, the
  documents the web loader fetches for a list of URLs, and \<open>urllib.parse.urljoin\<close>.
  Of an embedding vector only the length is read.
\<close>

record env =
  md5_hexdigest :: "bytes \<Rightarrow> string"
  embed_query :: "string \<Rightarrow> error + real list"
  model_invoke :: "string \<Rightarrow> error + string"
  web_load :: "string list \<Rightarrow> error + document list"
  urljoin :: "string \<Rightarrow> string \<Rightarrow> string"

text \<open>
  The langchain \<open>FAISS\<close> object: the dimension of its flat index and the documents of its
  docstore, in insertion order.
\<close>

record faiss =
  index_dim :: nat
  docstore :: "document list"

text \<open>What lies at a path of the disk: a saved index, or files that cannot be loaded.\<close>

datatype disk_entry = Saved faiss | Unreadable

text \<open>The calls the code makes to its collaborators, in order, and the messages logged at
  warning level or above. What a collaborator does in turn, such as the embeddings inside
  \<open>add_documents\<close>, is not recorded.\<close>

datatype call =
  EmbedQuery string | LoadLocal string | SaveLocal string | AddDocuments "document list"
  | WebLoad "string list" | ModelInvoke string

datatype level = Warning | Error

text \<open>
  The state the code reads and writes: the lines of the file at \<open>urls_file_path\<close>
  (\<open>None\<close> when opening or reading it raises), the disk, whether the disk accepts a
  write, the field \<open>vector_store\<close> of the \<open>FaissManager\<close>, and the two logs above.
  The object \<open>db\<close> that \<open>load_or_create\<close> returns is the object held in
  \<open>vector_store\<close>: every later read of \<open>db\<close> is a read of that field.
\<close>

record world =
  urls_file :: "string list option"
  disk :: "string \<rightharpoonup> disk_entry"
  disk_writable :: bool
  vector_store :: "faiss option"
  calls :: "call list"
  logged :: "level list"

record config =
  faiss_index_path :: string
  batch_size :: int
  base_url_prefix :: "string option"

definition called :: "call \<Rightarrow> world \<Rightarrow> world" where
  "called c w = w\<lparr>calls := calls w @ [c]\<rparr>"

definition log_at :: "level \<Rightarrow> world \<Rightarrow> world" where
  "log_at l w = w\<lparr>logged := logged w @ [l]\<rparr>"

section \<open>\<open>IngestionHelper\<close>\<close>

text \<open>The bytes that \<open>compute_doc_hash\<close> feeds to MD5, and the digest.\<close>

definition hash_input :: "string \<Rightarrow> bytes" where
  "hash_input doc = encode_utf8 (json_dumps doc)"

definition compute_doc_hash :: "env \<Rightarrow> string \<Rightarrow> string" where
  "compute_doc_hash env doc = md5_hexdigest env (hash_input doc)"

text \<open>\<open>doc.metadata.get("encoded_image", "")\<close> and \<open>compute_image_hash\<close>.\<close>

definition encoded_image :: "document \<Rightarrow> string" where
  "encoded_image doc = (case map_of (metadata doc) ''encoded_image'' of None \<Rightarrow> [] | Some s \<Rightarrow> s)"

definition compute_image_hash :: "env \<Rightarrow> document \<Rightarrow> string" where
  "compute_image_hash env doc = md5_hexdigest env (encode_utf8 (encoded_image doc))"

definition normalize_url :: "env \<Rightarrow> string \<Rightarrow> string option \<Rightarrow> string" where
  "normalize_url env url base_url =
     (if \<not> startswith url ''http'' then
        (if startswith url ''//'' then ''https:'' @ url
         else if startswith url ''/'' then
           (case base_url of
              None \<Rightarrow> ''https:'' @ url
            | Some b \<Rightarrow> if b = [] then ''https:'' @ url else urljoin env b url)
         else ''https://'' @ url)
      else url)"

section \<open>\<open>FaissManager\<close>\<close>

definition save :: "config \<Rightarrow> world \<Rightarrow> error option \<times> world" where
  "save cfg w =
     (case vector_store w of
        None \<Rightarrow> (None, w)
      | Some vs \<Rightarrow>
          (let w1 = called (SaveLocal (faiss_index_path cfg)) w
           in if disk_writable w1
              then (None, w1\<lparr>disk := (disk w1)(faiss_index_path cfg \<mapsto> Saved vs)\<rparr>)
              else (Some SaveError, w1)))"

definition load_or_create :: "env \<Rightarrow> config \<Rightarrow> world \<Rightarrow> error option \<times> world" where
  "load_or_create env cfg w =
     (case disk w (faiss_index_path cfg) of
        Some entry \<Rightarrow>
          (let w1 = called (LoadLocal (faiss_index_path cfg)) w
           in case entry of
                Unreadable \<Rightarrow> (Some LoadError, log_at Error w1)
              | Saved vs \<Rightarrow> (None, w1\<lparr>vector_store := Some vs\<rparr>))
      | None \<Rightarrow>
          (let w1 = called (EmbedQuery ''hello world'') (log_at Warning w)
           in case embed_query env ''hello world'' of
                Inl e \<Rightarrow> (Some e, w1)
              | Inr dummy_embedding \<Rightarrow>
                  save cfg (w1\<lparr>vector_store :=
                    Some \<lparr>index_dim = length dummy_embedding, docstore = []\<rparr>\<rparr>)))"

text \<open>
  \<open>FAISS.add_documents\<close> embeds the text of every document, adds the vectors to the
  index and the documents to the docstore. An embedding that fails, or a vector whose
  length is not the dimension of the index, makes it raise with the store as it was.
  The texts are embedded one by one with the fallible embedding of the environment.
\<close>

fun embed_documents :: "env \<Rightarrow> string list \<Rightarrow> error + real list list" where
  "embed_documents env [] = Inr []"
| "embed_documents env (t # ts) =
     (case embed_query env t of
        Inl e \<Rightarrow> Inl e
      | Inr v \<Rightarrow>
          (case embed_documents env ts of Inl e \<Rightarrow> Inl e | Inr vs \<Rightarrow> Inr (v # vs)))"

definition add_documents ::
  "env \<Rightarrow> config \<Rightarrow> document list \<Rightarrow> world \<Rightarrow> error option \<times> world" where
  "add_documents env cfg documents w =
     (case (if vector_store w = None then load_or_create env cfg w else (None, w)) of
        (Some e, w1) \<Rightarrow> (Some e, w1)
      | (None, w1) \<Rightarrow>
          (case vector_store w1 of
             None \<Rightarrow> (Some AttributeError, w1)
           | Some vs \<Rightarrow>
               (let w2 = called (AddDocuments documents) w1
                in case embed_documents env (map page_content documents) of
                     Inl e \<Rightarrow> (Some e, w2)
                   | Inr vectors \<Rightarrow>
                       if list_all (\<lambda>v. length v = index_dim vs) vectors
                       then (None, w2\<lparr>vector_store :=
                                      Some (vs\<lparr>docstore := docstore vs @ documents\<rparr>)\<rparr>)
                       else (Some AssertionError, w2))))"

section \<open>\<open>VectorStoreBatchProcessor\<close>\<close>

text \<open>A read error is logged and answered with the empty list.\<close>

definition read_urls_file :: "world \<Rightarrow> string list \<times> world" where
  "read_urls_file w =
     (case urls_file w of
        Some lines \<Rightarrow> (map strip (filter (\<lambda>line. strip line \<noteq> []) lines), w)
      | None \<Rightarrow> ([], log_at Error w))"

definition prompt :: "string \<Rightarrow> string" where
  "prompt text_element =
     ''Summarize the following text:'' @ [CHR 0x0A, CHR 0x0A] @ text_element
     @ [CHR 0x0A, CHR 0x0A] @ ''Summary:''"

definition summarize_text :: "env \<Rightarrow> string \<Rightarrow> world \<Rightarrow> (error + string) \<times> world" where
  "summarize_text env text_element w =
     (model_invoke env (prompt text_element), called (ModelInvoke (prompt text_element)) w)"

text \<open>
  The key under which \<open>process_urls\<close> compares documents: the digest of source and
  title, concatenated, wrapped once more in \<open>json.dumps\<close> and encoded.
\<close>

definition source_and_title :: "document \<Rightarrow> string" where
  "source_and_title doc =
     py_str (map_of (metadata doc) ''source'') @ py_str (map_of (metadata doc) ''title'')"

definition value_to_hash :: "env \<Rightarrow> document \<Rightarrow> bytes" where
  "value_to_hash env doc =
     encode_utf8 (json_dumps (compute_doc_hash env (source_and_title doc)))"

definition existing_hashes :: "env \<Rightarrow> faiss \<Rightarrow> bytes list" where
  "existing_hashes env db = map (value_to_hash env) (docstore db)"

definition unique_documents :: "env \<Rightarrow> faiss \<Rightarrow> document list \<Rightarrow> document list" where
  "unique_documents env db documents =
     filter (\<lambda>doc. value_to_hash env doc \<notin> set (existing_hashes env db)) documents"

text \<open>The loop over the new documents of a batch: an exception of the model leaves it.\<close>

fun summarize_documents ::
  "env \<Rightarrow> document list \<Rightarrow> world \<Rightarrow> (error + document list) \<times> world" where
  "summarize_documents env [] w = (Inr [], w)"
| "summarize_documents env (d # ds) w =
     (case summarize_text env (page_content d) w of
        (Inl e, w1) \<Rightarrow> (Inl e, w1)
      | (Inr summary, w1) \<Rightarrow>
          (case summarize_documents env ds w1 of
             (Inl e, w2) \<Rightarrow> (Inl e, w2)
           | (Inr ds', w2) \<Rightarrow>
               (Inr (d\<lparr>metadata := AList.update ''summary'' summary
                                     (AList.update ''type'' ''text'' (metadata d))\<rparr> # ds'), w2)))"

definition batch_urls :: "config \<Rightarrow> string list \<Rightarrow> int \<Rightarrow> string list" where
  "batch_urls cfg urls batch_num =
     (let start = batch_num * batch_size cfg in py_slice urls start (start + batch_size cfg))"

text \<open>One round of the loop over the batches.\<close>

definition process_batch ::
  "env \<Rightarrow> config \<Rightarrow> string list \<Rightarrow> int \<Rightarrow> world \<Rightarrow> error option \<times> world" where
  "process_batch env cfg urls batch_num w =
     (let w1 = called (WebLoad (batch_urls cfg urls batch_num)) w
      in case web_load env (batch_urls cfg urls batch_num) of
           Inl e \<Rightarrow> (Some e, w1)
         | Inr documents \<Rightarrow>
             (case vector_store w1 of
                None \<Rightarrow> (Some AttributeError, w1)
              | Some db \<Rightarrow>
                  (if unique_documents env db documents \<noteq> [] then
                     (case summarize_documents env (unique_documents env db documents) w1 of
                        (Inl e, w2) \<Rightarrow> (Some e, w2)
                      | (Inr summarized, w2) \<Rightarrow>
                          (case add_documents env cfg summarized w2 of
                             (Some e, w3) \<Rightarrow> (Some e, w3)
                           | (None, w3) \<Rightarrow> save cfg w3))
                   else (None, w1))))"

fun process_batches ::
  "env \<Rightarrow> config \<Rightarrow> string list \<Rightarrow> int list \<Rightarrow> world \<Rightarrow> error option \<times> world" where
  "process_batches env cfg urls [] w = (None, w)"
| "process_batches env cfg urls (batch_num # rest) w =
     (case process_batch env cfg urls batch_num w of
        (Some e, w1) \<Rightarrow> (Some e, w1)
      | (None, w1) \<Rightarrow> process_batches env cfg urls rest w1)"

definition total_batches :: "config \<Rightarrow> string list \<Rightarrow> int option \<Rightarrow> int" where
  "total_batches cfg urls batch_limit =
     (let total = (int (length urls) + batch_size cfg - 1) div batch_size cfg
      in case batch_limit of None \<Rightarrow> total | Some l \<Rightarrow> min total l)"

definition limited_urls :: "env \<Rightarrow> config \<Rightarrow> int option \<Rightarrow> string list \<Rightarrow> string list" where
  "limited_urls env cfg urls_limit urls =
     (let normalized =
            (case base_url_prefix cfg of
               None \<Rightarrow> urls
             | Some b \<Rightarrow> if b = [] then urls
                         else map (\<lambda>url. normalize_url env url (base_url_prefix cfg)) urls)
      in case urls_limit of None \<Rightarrow> normalized | Some n \<Rightarrow> py_slice normalized 0 n)"

text \<open>
  \<open>process_urls\<close> returns \<open>None\<close> when the file gave no URL and the vector store
  otherwise; \<open>Inl\<close> is an exception that leaves it.
\<close>

definition process_urls ::
  "env \<Rightarrow> config \<Rightarrow> int option \<Rightarrow> int option \<Rightarrow> world \<Rightarrow> (error + faiss option) \<times> world" where
  "process_urls env cfg batch_limit urls_limit w =
     (case read_urls_file w of
        (file_urls, w0) \<Rightarrow>
          if file_urls = [] then (Inr None, log_at Warning w0)
          else
            (let urls = limited_urls env cfg urls_limit file_urls
             in case load_or_create env cfg w0 of
                  (Some e, w1) \<Rightarrow> (Inl e, w1)
                | (None, w1) \<Rightarrow>
                    if batch_size cfg = 0 then (Inl ZeroDivisionError, w1)
                    else
                      (case process_batches env cfg urls
                              (py_range (total_batches cfg urls batch_limit)) w1 of
                         (Some e, w2) \<Rightarrow> (Inl e, w2)
                       | (None, w2) \<Rightarrow> (Inr (vector_store w2), w2))))"

definition unique_images :: "env \<Rightarrow> faiss \<Rightarrow> document list \<Rightarrow> document list" where
  "unique_images env db indexed_image_documents =
     filter (\<lambda>doc. compute_image_hash env doc \<notin> set (map (compute_image_hash env) (docstore db)))
       indexed_image_documents"

text \<open>\<open>process_images\<close> catches every exception, logs it and returns \<open>None\<close>.\<close>

definition process_images ::
  "env \<Rightarrow> config \<Rightarrow> document list \<Rightarrow> world \<Rightarrow> faiss option \<times> world" where
  "process_images env cfg indexed_image_documents w =
     (case load_or_create env cfg w of
        (Some e, w1) \<Rightarrow> (None, log_at Error w1)
      | (None, w1) \<Rightarrow>
          (case vector_store w1 of
             None \<Rightarrow> (None, log_at Error w1)
           | Some db \<Rightarrow>
               (if unique_images env db indexed_image_documents \<noteq> [] then
                  (case add_documents env cfg (unique_images env db indexed_image_documents) w1 of
                     (Some e, w2) \<Rightarrow> (None, log_at Error w2)
                   | (None, w2) \<Rightarrow>
                       (case save cfg w2 of
                          (Some e, w3) \<Rightarrow> (None, log_at Error w3)
                        | (None, w3) \<Rightarrow> (vector_store w3, w3)))
                else (vector_store w1, w1))))"

section \<open>Concrete inputs\<close>

text \<open>
  A small world to run the code in. The web loader answers every URL with one document
  whose text is the URL itself, whose source is the URL and whose title is \<open>T\<close>; the
  chat model fails on the text \<open>bad\<close> and answers \<open>summary\<close> otherwise; embeddings have
  three components. The digest is a stand-in: no result below depends on which function
  it is.
\<close>

definition web_page :: "string \<Rightarrow> string \<Rightarrow> string \<Rightarrow> document" where
  "web_page source title text =
     \<lparr>page_content = text, metadata = [(''source'', source), (''title'', title)]\<rparr>"

definition image_page :: "string \<Rightarrow> string \<Rightarrow> document" where
  "image_page file encoded =
     \<lparr>page_content = ''a caption'',
      metadata = [(''type'', ''image''), (''source_file'', file), (''encoded_image'', encoded)]\<rparr>"

definition env0 :: env where
  "env0 = \<lparr>md5_hexdigest = (\<lambda>b. b),
           embed_query = (\<lambda>q. Inr [0, 0, 0]),
           model_invoke = (\<lambda>p. if p = prompt ''bad'' then Inl ModelError else Inr ''summary''),
           web_load = (\<lambda>urls. Inr (map (\<lambda>url. web_page url ''T'' url) urls)),
           urljoin = (\<lambda>b u. b @ u)\<rparr>"

definition cfg0 :: config where
  "cfg0 = \<lparr>faiss_index_path = ''index'', batch_size = 2, base_url_prefix = None\<rparr>"

definition w0 :: world where
  "w0 = \<lparr>urls_file = Some [''https://a/1'', ''https://a/1'', ''https://a/2''],
          disk = Map.empty, disk_writable = True, vector_store = None,
          calls = [], logged = []\<rparr>"

definition empty_store :: faiss where
  "empty_store = \<lparr>index_dim = 3, docstore = []\<rparr>"

definition summarized :: "document \<Rightarrow> document" where
  "summarized d = d\<lparr>metadata := metadata d @ [(''type'', ''text''), (''summary'', ''summary'')]\<rparr>"

section \<open>Auxiliary definitions\<close>

text \<open>The batches handed to the web loader, read off the calls.\<close>

fun fetched :: "call list \<Rightarrow> string list list" where
  "fetched [] = []"
| "fetched (WebLoad us # cs) = us # fetched cs"
| "fetched (c # cs) = fetched cs"

text \<open>
  A list of calls in which every \<open>save_local\<close> comes directly after an
  \<open>add_documents\<close> of at least one document.
\<close>

fun save_follows_insert :: "call list \<Rightarrow> bool" where
  "save_follows_insert [] = True"
| "save_follows_insert (AddDocuments ds # SaveLocal p # cs) = (ds \<noteq> [] \<and> save_follows_insert cs)"
| "save_follows_insert (SaveLocal p # cs) = False"
| "save_follows_insert (c # cs) = save_follows_insert cs"

text \<open>
  The escapes of \<open>json_escape\<close> read as lists of character codes, and the three shapes
  an escape can have: the character itself, a backslash and one letter, or \<open>\u\<close> and
  four hexadecimal digits.
\<close>

definition hex_code :: "nat \<Rightarrow> nat" where
  "hex_code d = (if d < 10 then 48 + d else 87 + d)"

definition escape_codes :: "nat \<Rightarrow> nat list" where
  "escape_codes n =
     (if n = 92 then [92, 92]
      else if n = 34 then [92, 34]
      else if n = 8 then [92, 98]
      else if n = 12 then [92, 102]
      else if n = 10 then [92, 110]
      else if n = 13 then [92, 114]
      else if n = 9 then [92, 116]
      else if 32 \<le> n \<and> n \<le> 126 then [n]
      else [92, 117, hex_code (n div 4096 mod 16), hex_code (n div 256 mod 16),
            hex_code (n div 16 mod 16), hex_code (n mod 16)])"

datatype esc_shape = Plain | Short nat | Long

definition shape :: "nat \<Rightarrow> esc_shape" where
  "shape n =
     (if n = 92 then Short 92 else if n = 34 then Short 34 else if n = 8 then Short 98
      else if n = 12 then Short 102 else if n = 10 then Short 110
      else if n = 13 then Short 114 else if n = 9 then Short 116
      else if 32 \<le> n \<and> n \<le> 126 then Plain else Long)"

definition short_of :: "nat \<Rightarrow> nat" where
  "short_of k =
     (if k = 92 then 92 else if k = 34 then 34 else if k = 98 then 8
      else if k = 102 then 12 else if k = 110 then 10 else if k = 114 then 13 else 9)"

section \<open>Properties of the encoders\<close>

lemma of_char_hex_digit: "d < 16 \<Longrightarrow> of_char (hex_digit d) = hex_code d"
  by (simp add: hex_digit_def hex_code_def)

lemma map_of_char_json_escape:
  "map of_char (json_escape c) = escape_codes (of_char c)"
  unfolding json_escape_def escape_codes_def hex4_def
  by (simp add: of_char_hex_digit flip: of_char_eq_iff [where 'a = nat])

lemma hex_code_inj: "a < 16 \<Longrightarrow> b < 16 \<Longrightarrow> hex_code a = hex_code b \<Longrightarrow> a = b"
  by (simp add: hex_code_def split: if_splits)

lemma hex_code_ascii: "d < 16 \<Longrightarrow> hex_code d < 128"
  by (simp add: hex_code_def)

lemma hex_low_eq:
  assumes "n < 256" "m < 256"
    "hex_code (n div 16 mod 16) = hex_code (m div 16 mod 16)"
    "hex_code (n mod 16) = hex_code (m mod 16)"
  shows "n = m"
proof -
  have lt: "n div 16 mod 16 < 16" "m div 16 mod 16 < 16" "n mod 16 < 16" "m mod 16 < 16"
    by (rule mod_less_divisor, rule zero_less_numeral)+
  have hi: "n div 16 mod 16 = m div 16 mod 16"
    by (rule hex_code_inj [OF lt(1) lt(2) assms(3)])
  have lo: "n mod 16 = m mod 16"
    by (rule hex_code_inj [OF lt(3) lt(4) assms(4)])
  have "n div 16 < 16" "m div 16 < 16"
    using assms(1,2) by linarith+
  then have "n div 16 = m div 16"
    using hi by (simp only: mod_less)
  then have "16 * (n div 16) + n mod 16 = 16 * (m div 16) + m mod 16"
    using lo by (simp only:)
  then show ?thesis
    by (simp only: mult_div_mod_eq)
qed

lemma escape_codes_shape:
  "escape_codes n = (case shape n of Plain \<Rightarrow> [n] | Short k \<Rightarrow> [92, k]
     | Long \<Rightarrow> [92, 117, hex_code (n div 4096 mod 16), hex_code (n div 256 mod 16),
            hex_code (n div 16 mod 16), hex_code (n mod 16)])"
  unfolding escape_codes_def shape_def by simp

lemma shape_92: "shape 92 = Short 92"
  by (simp add: shape_def)

lemma shape_Plain_bound: "shape n = Plain \<longrightarrow> n \<le> 126"
  unfolding shape_def by simp

lemma shape_Plain: "shape n = Plain \<Longrightarrow> escape_codes n = [n] \<and> n \<noteq> 92 \<and> n < 128"
  using shape_92 shape_Plain_bound [of n] by (auto simp: escape_codes_shape)

lemma shape_Short_iff: "shape n = Short k \<longrightarrow> n = short_of k \<and> k \<noteq> 117 \<and> k < 128"
  unfolding shape_def short_of_def by simp

lemma shape_Short: "shape n = Short k \<Longrightarrow> escape_codes n = [92, k] \<and> k \<noteq> 117 \<and> k < 128"
  using shape_Short_iff [of n k] by (simp add: escape_codes_shape)

lemma shape_Short_inj: "shape n = Short k \<Longrightarrow> shape m = Short k \<Longrightarrow> n = m"
  using shape_Short_iff [of n k] shape_Short_iff [of m k] by simp

lemma shape_Long: "shape n = Long \<Longrightarrow> escape_codes n =
    [92, 117, hex_code (n div 4096 mod 16), hex_code (n div 256 mod 16),
            hex_code (n div 16 mod 16), hex_code (n mod 16)]"
  by (simp add: escape_codes_shape)

lemma escape_codes_unique:
  assumes n: "n < 256" and m: "m < 256" and eq: "escape_codes n @ r = escape_codes m @ r'"
  shows "n = m \<and> r = r'"
proof (cases "shape n")
  case Plain
  note pn = shape_Plain [OF Plain]
  show ?thesis
  proof (cases "shape m")
    case Plain
    with pn eq shape_Plain [OF Plain] show ?thesis by simp
  next
    case (Short k)
    with pn eq shape_Short [OF Short] show ?thesis by simp
  next
    case Long
    with pn eq shape_Long [OF Long] show ?thesis by simp
  qed
next
  case (Short k)
  note sn = shape_Short [OF Short]
  show ?thesis
  proof (cases "shape m")
    case Plain
    with sn eq shape_Plain [OF Plain] show ?thesis by simp
  next
    case (Short k')
    from sn eq shape_Short [OF Short] have "k = k'" "r = r'" by simp_all
    with shape_Short_inj \<open>shape n = Short k\<close> Short show ?thesis by blast
  next
    case Long
    with sn eq shape_Long [OF Long] show ?thesis by simp
  qed
next
  case Long
  note ln = shape_Long [OF Long]
  show ?thesis
  proof (cases "shape m")
    case Plain
    with ln eq shape_Plain [OF Plain] show ?thesis by simp
  next
    case (Short k)
    with ln eq shape_Short [OF Short] show ?thesis by simp
  next
    case Long
    from ln eq shape_Long [OF Long]
    have "hex_code (n div 16 mod 16) = hex_code (m div 16 mod 16)"
      "hex_code (n mod 16) = hex_code (m mod 16)" "r = r'" by simp_all
    with hex_low_eq [OF n m] show ?thesis by simp
  qed
qed

lemma escape_codes_ascii: "k \<in> set (escape_codes n) \<Longrightarrow> k < 128"
proof (cases "shape n")
  case Plain
  assume "k \<in> set (escape_codes n)"
  with shape_Plain [OF Plain] show ?thesis by simp
next
  case (Short j)
  assume "k \<in> set (escape_codes n)"
  with shape_Short [OF Short] show ?thesis by auto
next
  case Long
  have lt: "n div 4096 mod 16 < 16" "n div 256 mod 16 < 16" "n div 16 mod 16 < 16" "n mod 16 < 16"
    by (rule mod_less_divisor, rule zero_less_numeral)+
  assume "k \<in> set (escape_codes n)"
  with shape_Long [OF Long] lt [THEN hex_code_ascii] show ?thesis by auto
qed

lemma escape_codes_nonempty: "escape_codes n \<noteq> []"
  by (simp add: escape_codes_shape split: esc_shape.split)

lemma json_escape_nonempty: "json_escape c \<noteq> []"
  using escape_codes_nonempty [of "of_char c"] map_of_char_json_escape [of c] by auto

lemma json_escape_unique:
  assumes "json_escape c @ r = json_escape d @ r'"
  shows "c = d \<and> r = r'"
proof -
  have "map of_char (json_escape c @ r) = (map of_char (json_escape d @ r') :: nat list)"
    using assms by simp
  then have "escape_codes (of_char c) @ map of_char r = escape_codes (of_char d) @ map of_char r'"
    by (simp add: map_of_char_json_escape)
  then have "(of_char c :: nat) = of_char d \<and> (map of_char r :: nat list) = map of_char r'"
    by (intro escape_codes_unique) simp_all
  then show ?thesis
    by (simp add: inj_map_eq_map [OF inj_of_char])
qed

lemma concat_json_escape_inj:
  "concat (map json_escape s) = concat (map json_escape t) \<Longrightarrow> s = t"
proof (induction s arbitrary: t)
  case Nil
  then show ?case by (cases t) (simp_all add: json_escape_nonempty)
next
  case (Cons c s)
  show ?case
  proof (cases t)
    case Nil
    with Cons.prems show ?thesis by (simp add: json_escape_nonempty)
  next
    case (Cons d t')
    with Cons.prems have "json_escape c @ concat (map json_escape s)
        = json_escape d @ concat (map json_escape t')" by simp
    from json_escape_unique [OF this] Cons.IH [of t'] Cons show ?thesis by simp
  qed
qed

lemma json_dumps_inj: "json_dumps s = json_dumps t \<Longrightarrow> s = t"
  by (simp add: json_dumps_def concat_json_escape_inj)

lemma json_escape_ascii: "x \<in> set (json_escape c) \<Longrightarrow> (of_char x :: nat) < 128"
proof -
  assume "x \<in> set (json_escape c)"
  then have "of_char x \<in> set (map of_char (json_escape c) :: nat list)" by simp
  then show ?thesis
    by (simp only: map_of_char_json_escape escape_codes_ascii)
qed

lemma json_dumps_ascii: "x \<in> set (json_dumps s) \<Longrightarrow> (of_char x :: nat) < 128"
  by (auto simp: json_dumps_def dest: json_escape_ascii)

lemma encode_utf8_ascii: "(\<And>x. x \<in> set s \<Longrightarrow> (of_char x :: nat) < 128) \<Longrightarrow> encode_utf8 s = s"
  by (induction s) (simp_all add: encode_utf8_def utf8_char_def)

lemma hash_input_eq: "hash_input s = json_dumps s"
  unfolding hash_input_def by (rule encode_utf8_ascii) (rule json_dumps_ascii)

lemma hash_input_inj: "hash_input s = hash_input t \<Longrightarrow> s = t"
  by (simp add: hash_input_eq json_dumps_inj)

section \<open>The vector store manager\<close>

text \<open>
  C9. \<open>save\<close> on a manager whose vector store is still \<open>None\<close> does nothing: it
  raises no error, makes no call and leaves the disk as it is, whether or not the disk
  would accept a write.
\<close>

theorem save_without_store_is_noop:
  "vector_store w = None \<Longrightarrow> save cfg w = (None, w)"
  by (simp add: save_def)

theorem save_without_store_is_noop_witness:
  "vector_store (w0\<lparr>disk_writable := False\<rparr>) = None
   \<and> save cfg0 (w0\<lparr>disk_writable := False\<rparr>) = (None, w0\<lparr>disk_writable := False\<rparr>)"
  using save_without_store_is_noop [of "w0\<lparr>disk_writable := False\<rparr>" cfg0]
  by (simp add: w0_def)

text \<open>
  C3. \<open>load_or_create\<close>: an index saved at the path is loaded into the manager; files
  that are present but cannot be loaded make it raise the load error after one attempt,
  with the manager and the disk unchanged; with nothing at the path it asks for one probe
  embedding, creates an empty store of that dimension and saves it at once, with no
  insert before the save.
\<close>

theorem load_or_create_cases:
  "(disk w (faiss_index_path cfg) = Some (Saved vs) \<longrightarrow>
      load_or_create env cfg w
        = (None, w\<lparr>vector_store := Some vs,
                     calls := calls w @ [LoadLocal (faiss_index_path cfg)]\<rparr>))
   \<and> (disk w (faiss_index_path cfg) = Some Unreadable \<longrightarrow>
      load_or_create env cfg w
        = (Some LoadError, w\<lparr>calls := calls w @ [LoadLocal (faiss_index_path cfg)],
                              logged := logged w @ [Error]\<rparr>))
   \<and> (disk w (faiss_index_path cfg) = None \<and> embed_query env ''hello world'' = Inr v
        \<and> disk_writable w \<longrightarrow>
      load_or_create env cfg w
        = (None, w\<lparr>vector_store := Some \<lparr>index_dim = length v, docstore = []\<rparr>,
                     disk := (disk w)(faiss_index_path cfg \<mapsto>
                                Saved \<lparr>index_dim = length v, docstore = []\<rparr>),
                     calls := calls w @ [EmbedQuery ''hello world'',
                                         SaveLocal (faiss_index_path cfg)],
                     logged := logged w @ [Warning]\<rparr>))"
  by (simp add: load_or_create_def save_def called_def log_at_def)

theorem load_or_create_cases_witness:
  "fst (load_or_create env0 cfg0 (w0\<lparr>disk := [''index'' \<mapsto> Saved empty_store]\<rparr>)) = None
   \<and> vector_store (snd (load_or_create env0 cfg0 (w0\<lparr>disk := [''index'' \<mapsto> Saved empty_store]\<rparr>)))
       = Some empty_store
   \<and> fst (load_or_create env0 cfg0 (w0\<lparr>disk := [''index'' \<mapsto> Unreadable]\<rparr>)) = Some LoadError
   \<and> vector_store (snd (load_or_create env0 cfg0 (w0\<lparr>disk := [''index'' \<mapsto> Unreadable]\<rparr>))) = None
   \<and> fst (load_or_create env0 cfg0 w0) = None
   \<and> disk (snd (load_or_create env0 cfg0 w0)) ''index'' = Some (Saved empty_store)
   \<and> calls (snd (load_or_create env0 cfg0 w0)) = [EmbedQuery ''hello world'', SaveLocal ''index'']"
  using load_or_create_cases [of "w0\<lparr>disk := [''index'' \<mapsto> Saved empty_store]\<rparr>" cfg0 empty_store env0]
    load_or_create_cases [of "w0\<lparr>disk := [''index'' \<mapsto> Unreadable]\<rparr>" cfg0 empty_store env0]
    load_or_create_cases [of w0 cfg0 empty_store env0 "[0, 0, 0]"]
  by (simp add: w0_def cfg0_def env0_def empty_store_def)

section \<open>Fingerprints of documents\<close>

text \<open>
  C5. The key that \<open>process_urls\<close> compares is computed from the source and the title
  of a document and from nothing else: two documents with the same source and the same
  title have the same key, whatever their text and their other metadata. The key is a
  function of the document alone, so computing it again gives the same value.
\<close>

theorem value_to_hash_source_title_only:
  "map_of (metadata d1) ''source'' = map_of (metadata d2) ''source'' \<Longrightarrow>
   map_of (metadata d1) ''title'' = map_of (metadata d2) ''title'' \<Longrightarrow>
   value_to_hash env d1 = value_to_hash env d2"
  by (simp add: value_to_hash_def source_and_title_def)

theorem value_to_hash_source_title_only_witness:
  "map_of (metadata (web_page ''u'' ''t'' ''old text'')) ''source''
     = map_of (metadata (web_page ''u'' ''t'' ''new text'')) ''source''
   \<and> map_of (metadata (web_page ''u'' ''t'' ''old text'')) ''title''
     = map_of (metadata (web_page ''u'' ''t'' ''new text'')) ''title''
   \<and> page_content (web_page ''u'' ''t'' ''old text'') \<noteq> page_content (web_page ''u'' ''t'' ''new text'')
   \<and> value_to_hash env0 (web_page ''u'' ''t'' ''old text'')
     = value_to_hash env0 (web_page ''u'' ''t'' ''new text'')"
  using value_to_hash_source_title_only
    [of "web_page ''u'' ''t'' ''old text''" "web_page ''u'' ''t'' ''new text''" env0]
  by (simp add: web_page_def)

text \<open>
  C6 as stated fails: source and title are concatenated with nothing between them, so
  the pairs (ab, c) and (a, bc) give the same bytes to the digest.
\<close>

theorem hash_input_pairs_counterexample:
  "(map_of (metadata (web_page ''ab'' ''c'' [])) ''source'',
    map_of (metadata (web_page ''ab'' ''c'' [])) ''title'')
   \<noteq> (map_of (metadata (web_page ''a'' ''bc'' [])) ''source'',
       map_of (metadata (web_page ''a'' ''bc'' [])) ''title'')
   \<and> hash_input (source_and_title (web_page ''ab'' ''c'' []))
     = hash_input (source_and_title (web_page ''a'' ''bc'' []))"
  by (simp add: web_page_def source_and_title_def py_str_def)

text \<open>
  C6, amended. The bytes given to the digest determine the concatenation of source and
  title, and nothing more: two documents give the same bytes exactly when their
  concatenations are the same string.
\<close>

theorem hash_input_determines_concatenation:
  "hash_input (source_and_title d1) = hash_input (source_and_title d2)
   \<longleftrightarrow> source_and_title d1 = source_and_title d2"
  by (rule iffI, erule hash_input_inj, erule arg_cong)

theorem hash_input_determines_concatenation_witness:
  "hash_input (source_and_title (web_page ''a'' ''b'' []))
   \<noteq> hash_input (source_and_title (web_page ''a'' ''c'' []))"
  using hash_input_determines_concatenation [of "web_page ''a'' ''b'' []" "web_page ''a'' ''c'' []"]
  by (simp add: web_page_def source_and_title_def py_str_def)

section \<open>Reading the source list\<close>

text \<open>
  C8 as stated fails: when the file of URLs cannot be read, \<open>read_urls_file\<close> answers
  with the empty list and \<open>process_urls\<close> returns \<open>None\<close> without raising, the same
  result as for an empty file.
\<close>

theorem unreadable_urls_file_counterexample:
  "urls_file (w0\<lparr>urls_file := None\<rparr>) = None
   \<and> fst (read_urls_file (w0\<lparr>urls_file := None\<rparr>)) = []
   \<and> fst (process_urls env0 cfg0 None None (w0\<lparr>urls_file := None\<rparr>)) = Inr None
   \<and> fst (process_urls env0 cfg0 None None (w0\<lparr>urls_file := Some []\<rparr>)) = Inr None"
  by (simp add: process_urls_def read_urls_file_def w0_def log_at_def)

text \<open>
  C8, amended. When the file of URLs cannot be read, the error is caught and logged, the
  list of URLs is empty, and \<open>process_urls\<close> logs a warning and returns \<open>None\<close> without
  raising; no batch is processed, and the vector store is neither loaded nor created.
\<close>

theorem unreadable_urls_file_returns_none:
  "urls_file w = None \<Longrightarrow>
   process_urls env cfg batch_limit urls_limit w
     = (Inr None, w\<lparr>logged := logged w @ [Error, Warning]\<rparr>)"
  by (simp add: process_urls_def read_urls_file_def log_at_def)

theorem unreadable_urls_file_returns_none_witness:
  "urls_file (w0\<lparr>urls_file := None\<rparr>) = None
   \<and> process_urls env0 cfg0 (Some 1) None (w0\<lparr>urls_file := None\<rparr>)
     = (Inr None, w0\<lparr>urls_file := None, logged := [Error, Warning]\<rparr>)"
  using unreadable_urls_file_returns_none [of "w0\<lparr>urls_file := None\<rparr>" env0 cfg0 "Some 1" None]
  by (simp add: w0_def)

section \<open>Fingerprints of images\<close>

text \<open>
  C10 as stated fails in its conclusion: two images without an encoded image that arrive
  in one call, against a store that holds no document yet, are both committed.
\<close>

theorem empty_encoded_images_counterexample:
  "encoded_image (image_page ''x.png'' []) = []
   \<and> encoded_image (image_page ''y.png'' []) = []
   \<and> fst (process_images env0 cfg0 [image_page ''x.png'' [], image_page ''y.png'' []] w0)
     = Some \<lparr>index_dim = 3, docstore = [image_page ''x.png'' [], image_page ''y.png'' []]\<rparr>"
  by (simp add: process_images_def load_or_create_def save_def add_documents_def called_def
      log_at_def unique_images_def compute_image_hash_def encoded_image_def image_page_def
      w0_def env0_def cfg0_def)

text \<open>
  C10, amended. Every image document whose \<open>encoded_image\<close> is absent or empty has the
  same fingerprint, the digest of the empty byte string. \<open>process_images\<close> compares the
  candidates with the documents of the store only: once the store holds a document without
  an encoded image, no such image is among the new ones, while against a store with no
  document every candidate is new. A call that finds a saved index, whose embeddings
  succeed with the dimension of the index and whose write succeeds, returns the store
  with exactly the new ones added and leaves that store on the disk.
\<close>

theorem empty_encoded_image_fingerprint:
  "(encoded_image d = [] \<longrightarrow> compute_image_hash env d = md5_hexdigest env [])
   \<and> (encoded_image d = [] \<and> e \<in> set (docstore db) \<and> encoded_image e = []
        \<longrightarrow> d \<notin> set (unique_images env db docs))
   \<and> (docstore db = [] \<longrightarrow> unique_images env db docs = docs)
   \<and> (disk w (faiss_index_path cfg) = Some (Saved db) \<and> disk_writable w
        \<and> embed_documents env (map page_content (unique_images env db docs)) = Inr vectors
        \<and> list_all (\<lambda>v. length v = index_dim db) vectors \<longrightarrow>
        fst (process_images env cfg docs w)
          = Some (db\<lparr>docstore := docstore db @ unique_images env db docs\<rparr>)
        \<and> disk (snd (process_images env cfg docs w)) (faiss_index_path cfg)
          = Some (Saved (db\<lparr>docstore := docstore db @ unique_images env db docs\<rparr>)))"
proof (intro conjI impI)
  assume "encoded_image d = []"
  then show "compute_image_hash env d = md5_hexdigest env []"
    by (simp add: compute_image_hash_def encode_utf8_def)
next
  assume "encoded_image d = [] \<and> e \<in> set (docstore db) \<and> encoded_image e = []"
  then have "compute_image_hash env d \<in> compute_image_hash env ` set (docstore db)"
    by (auto simp: compute_image_hash_def intro!: image_eqI [where x = e])
  then show "d \<notin> set (unique_images env db docs)"
    by (simp add: unique_images_def)
next
  assume "docstore db = []"
  then show "unique_images env db docs = docs"
    by (simp add: unique_images_def)
next
  assume a: "disk w (faiss_index_path cfg) = Some (Saved db) \<and> disk_writable w
        \<and> embed_documents env (map page_content (unique_images env db docs)) = Inr vectors
        \<and> list_all (\<lambda>v. length v = index_dim db) vectors"
  then show "fst (process_images env cfg docs w)
          = Some (db\<lparr>docstore := docstore db @ unique_images env db docs\<rparr>)"
    by (simp add: process_images_def load_or_create_def save_def add_documents_def called_def
        log_at_def Let_def)
  from a show "disk (snd (process_images env cfg docs w)) (faiss_index_path cfg)
          = Some (Saved (db\<lparr>docstore := docstore db @ unique_images env db docs\<rparr>))"
    by (simp add: process_images_def load_or_create_def save_def add_documents_def called_def
        log_at_def Let_def)
qed

theorem empty_encoded_image_fingerprint_witness:
  "compute_image_hash env0 (image_page ''x.png'' []) = md5_hexdigest env0 []
   \<and> image_page ''x.png'' [] \<notin> set (unique_images env0
        \<lparr>index_dim = 3, docstore = [web_page ''u'' ''T'' ''text'']\<rparr> [image_page ''x.png'' []])
   \<and> unique_images env0 empty_store [image_page ''x.png'' [], image_page ''y.png'' []]
       = [image_page ''x.png'' [], image_page ''y.png'' []]
   \<and> embed_documents env0 (map page_content (unique_images env0 empty_store
         [image_page ''x.png'' [], image_page ''y.png'' []])) = Inr [[0, 0, 0], [0, 0, 0]]
   \<and> fst (process_images env0 cfg0 [image_page ''x.png'' [], image_page ''y.png'' []]
        (w0\<lparr>disk := [''index'' \<mapsto> Saved empty_store]\<rparr>))
       = Some \<lparr>index_dim = 3, docstore = [image_page ''x.png'' [], image_page ''y.png'' []]\<rparr>
   \<and> disk (snd (process_images env0 cfg0 [image_page ''x.png'' [], image_page ''y.png'' []]
        (w0\<lparr>disk := [''index'' \<mapsto> Saved empty_store]\<rparr>))) ''index''
       = Some (Saved \<lparr>index_dim = 3, docstore = [image_page ''x.png'' [], image_page ''y.png'' []]\<rparr>)"
  using empty_encoded_image_fingerprint [where d = "image_page ''x.png'' []" and env = env0
      and e = "web_page ''u'' ''T'' ''text''"
      and db = "\<lparr>index_dim = 3, docstore = [web_page ''u'' ''T'' ''text'']\<rparr>"
      and docs = "[image_page ''x.png'' []]" and w = w0 and cfg = cfg0 and vectors = "[]"]
    empty_encoded_image_fingerprint [where d = "image_page ''x.png'' []" and env = env0
      and e = "web_page ''u'' ''T'' ''text''" and db = empty_store
      and docs = "[image_page ''x.png'' [], image_page ''y.png'' []]"
      and w = "w0\<lparr>disk := [''index'' \<mapsto> Saved empty_store]\<rparr>" and cfg = cfg0
      and vectors = "[[0, 0, 0], [0, 0, 0]]"]
  by (simp add: encoded_image_def image_page_def web_page_def empty_store_def w0_def cfg0_def
      env0_def unique_images_def compute_image_hash_def)

section \<open>The steps of a batch\<close>

lemma save_follows_insert_model_calls:
  "save_follows_insert (map ModelInvoke ps @ cs) = save_follows_insert cs"
  by (induction ps) simp_all

lemma save_follows_insert_add:
  "save_follows_insert ys \<Longrightarrow> save_follows_insert (AddDocuments v # ys)"
  by (cases ys rule: save_follows_insert.cases) simp_all

lemma save_follows_insert_append:
  "save_follows_insert xs \<Longrightarrow> save_follows_insert ys \<Longrightarrow> save_follows_insert (xs @ ys)"
  by (induction xs rule: save_follows_insert.induct) (simp_all add: save_follows_insert_add)

lemma fetched_append: "fetched (xs @ ys) = fetched xs @ fetched ys"
  by (induction xs rule: fetched.induct) simp_all

lemma fetched_model_calls: "fetched (map ModelInvoke ps) = []"
  by (induction ps) simp_all

text \<open>What the loop over the new documents does to the state: it adds calls of the model.\<close>

lemma summarize_documents_world:
  "\<exists>n. snd (summarize_documents env ds w)
     = w\<lparr>calls := calls w @ map (\<lambda>d. ModelInvoke (prompt (page_content d))) (take n ds)\<rparr>"
proof (induction ds arbitrary: w)
  case Nil
  then show ?case by simp
next
  case (Cons d ds)
  let ?w1 = "called (ModelInvoke (prompt (page_content d))) w"
  from Cons [of ?w1] obtain n where n: "snd (summarize_documents env ds ?w1)
     = ?w1\<lparr>calls := calls ?w1 @ map (\<lambda>d. ModelInvoke (prompt (page_content d))) (take n ds)\<rparr>"
    by blast
  show ?case
  proof (cases "model_invoke env (prompt (page_content d))")
    case (Inl e)
    then have "snd (summarize_documents env (d # ds) w)
      = w\<lparr>calls := calls w @ map (\<lambda>d. ModelInvoke (prompt (page_content d))) (take 1 (d # ds))\<rparr>"
      by (simp add: summarize_text_def called_def)
    then show ?thesis by blast
  next
    case (Inr s)
    then have "snd (summarize_documents env (d # ds) w) = snd (summarize_documents env ds ?w1)"
      by (simp add: summarize_text_def split: prod.splits sum.splits)
    with n have "snd (summarize_documents env (d # ds) w)
      = w\<lparr>calls := calls w @ map (\<lambda>d. ModelInvoke (prompt (page_content d))) (take (Suc n) (d # ds))\<rparr>"
      by (simp add: called_def)
    then show ?thesis by blast
  qed
qed

lemma source_and_title_summary:
  "source_and_title (d\<lparr>metadata := AList.update ''summary'' s
       (AList.update ''type'' ''text'' (metadata d))\<rparr>) = source_and_title d"
  by (simp add: source_and_title_def update_conv')

lemma summarize_documents_result:
  "summarize_documents env ds w = (Inr ds', w') \<Longrightarrow>
   map source_and_title ds' = map source_and_title ds"
proof (induction ds arbitrary: w ds' w')
  case Nil
  then show ?case by simp
next
  case (Cons d ds)
  then show ?case
    by (auto simp: source_and_title_summary split: prod.splits sum.splits)
qed

lemma summarize_documents_failure:
  "d \<in> set ds \<Longrightarrow> model_invoke env (prompt (page_content d)) = Inl e \<Longrightarrow>
   \<exists>e'. fst (summarize_documents env ds w) = Inl e'"
proof (induction ds arbitrary: w)
  case Nil
  then show ?case by simp
next
  case (Cons x ds)
  show ?case
  proof (cases "model_invoke env (prompt (page_content x))")
    case (Inl e0)
    then show ?thesis by (simp add: summarize_text_def)
  next
    case (Inr s)
    with Cons.prems have "d \<in> set ds" by auto
    from Cons.IH [OF this Cons.prems(2), of "called (ModelInvoke (prompt (page_content x))) w"]
    obtain e' where "fst (summarize_documents env ds
        (called (ModelInvoke (prompt (page_content x))) w)) = Inl e'" by blast
    with Inr show ?thesis
      by (auto simp: summarize_text_def split: prod.splits sum.splits)
  qed
qed

lemma add_documents_loaded:
  "vector_store w = Some vs \<Longrightarrow>
   embed_documents env (map page_content docs) = Inr vectors \<Longrightarrow>
   list_all (\<lambda>v. length v = index_dim vs) vectors \<Longrightarrow>
   add_documents env cfg docs w
     = (None, w\<lparr>vector_store := Some (vs\<lparr>docstore := docstore vs @ docs\<rparr>),
                  calls := calls w @ [AddDocuments docs]\<rparr>)"
  by (simp add: add_documents_def called_def Let_def)

lemma add_documents_cases:
  assumes "vector_store w = Some vs"
  shows "add_documents env cfg docs w
      = (None, w\<lparr>vector_store := Some (vs\<lparr>docstore := docstore vs @ docs\<rparr>),
                   calls := calls w @ [AddDocuments docs]\<rparr>)
    \<or> (\<exists>e. add_documents env cfg docs w
           = (Some e, w\<lparr>calls := calls w @ [AddDocuments docs]\<rparr>))"
  using assms
  by (cases "embed_documents env (map page_content docs)")
    (simp_all add: add_documents_def called_def Let_def)

lemma save_loaded:
  "vector_store w = Some vs \<Longrightarrow>
   save cfg w = (if disk_writable w
      then (None, w\<lparr>disk := (disk w)(faiss_index_path cfg \<mapsto> Saved vs),
                     calls := calls w @ [SaveLocal (faiss_index_path cfg)]\<rparr>)
      else (Some SaveError, w\<lparr>calls := calls w @ [SaveLocal (faiss_index_path cfg)]\<rparr>))"
  by (simp add: save_def called_def)

text \<open>
  One round of the loop with a loaded store and a successful fetch, in its three outcomes:
  nothing new, a failure of the model, and an insert followed by a save.
\<close>

lemma process_batch_nothing_new:
  assumes "web_load env (batch_urls cfg urls k) = Inr documents"
    and "vector_store w = Some db"
    and "unique_documents env db documents = []"
  shows "process_batch env cfg urls k w
    = (None, w\<lparr>calls := calls w @ [WebLoad (batch_urls cfg urls k)]\<rparr>)"
  using assms by (simp add: process_batch_def called_def)

lemma process_batch_model_failure:
  assumes "web_load env (batch_urls cfg urls k) = Inr documents"
    and "vector_store w = Some db"
    and "unique_documents env db documents \<noteq> []"
    and "summarize_documents env (unique_documents env db documents)
           (called (WebLoad (batch_urls cfg urls k)) w) = (Inl e, w2)"
  shows "process_batch env cfg urls k w = (Some e, w2)"
  using assms by (simp add: process_batch_def called_def)

lemma summarize_documents_store:
  "summarize_documents env ds w = (r, w') \<Longrightarrow>
   vector_store w' = vector_store w \<and> disk w' = disk w \<and> disk_writable w' = disk_writable w"
  using summarize_documents_world [of env ds w] by auto

lemma process_batch_insert:
  assumes "web_load env (batch_urls cfg urls k) = Inr documents"
    and "vector_store w = Some db"
    and "unique_documents env db documents \<noteq> []"
    and "summarize_documents env (unique_documents env db documents)
           (called (WebLoad (batch_urls cfg urls k)) w) = (Inr ds', w2)"
  shows "vector_store w2 = Some db \<and> disk w2 = disk w \<and> disk_writable w2 = disk_writable w"
    and "process_batch env cfg urls k w
      = (case add_documents env cfg ds' w2 of
           (Some e, w3) \<Rightarrow> (Some e, w3)
         | (None, w3) \<Rightarrow> save cfg w3)"
proof -
  from summarize_documents_store [OF assms(4)] assms(2)
  show "vector_store w2 = Some db \<and> disk w2 = disk w \<and> disk_writable w2 = disk_writable w"
    by (simp add: called_def)
  from assms show "process_batch env cfg urls k w
      = (case add_documents env cfg ds' w2 of
           (Some e, w3) \<Rightarrow> (Some e, w3)
         | (None, w3) \<Rightarrow> save cfg w3)"
    by (simp add: process_batch_def called_def)
qed

lemma summarize_documents_nonempty:
  "summarize_documents env ds w = (Inr ds', w') \<Longrightarrow> ds \<noteq> [] \<Longrightarrow> ds' \<noteq> []"
  using summarize_documents_result [of env ds w ds' w'] by (cases ds') auto

lemma process_batch_calls:
  "\<exists>cs. calls (snd (process_batch env cfg urls k w))
          = calls w @ WebLoad (batch_urls cfg urls k) # cs
        \<and> save_follows_insert cs \<and> fetched cs = []"
proof (cases "web_load env (batch_urls cfg urls k)")
  case (Inl e)
  then show ?thesis by (simp add: process_batch_def called_def)
next
  case (Inr documents)
  show ?thesis
  proof (cases "vector_store w")
    case None
    with Inr show ?thesis by (simp add: process_batch_def called_def)
  next
    case (Some db)
    let ?new = "unique_documents env db documents"
    let ?w1 = "called (WebLoad (batch_urls cfg urls k)) w"
    show ?thesis
    proof (cases "?new = []")
      case True
      from process_batch_nothing_new [OF Inr Some True] show ?thesis by simp
    next
      case False
      obtain r w2 where r: "summarize_documents env ?new ?w1 = (r, w2)"
        by (cases "summarize_documents env ?new ?w1")
      from summarize_documents_world [of env ?new ?w1] r obtain n
        where w2: "w2 = ?w1\<lparr>calls := calls ?w1
            @ map (\<lambda>d. ModelInvoke (prompt (page_content d))) (take n ?new)\<rparr>"
        by auto
      have "calls w2 = calls w @ WebLoad (batch_urls cfg urls k)
          # map ModelInvoke (map (\<lambda>d. prompt (page_content d)) (take n ?new))"
        by (simp add: w2 called_def comp_def)
      then obtain ps
        where calls2: "calls w2 = calls w @ WebLoad (batch_urls cfg urls k) # map ModelInvoke ps"
        by blast
      show ?thesis
      proof (cases r)
        case (Inl e)
        with r process_batch_model_failure [OF Inr Some False]
        have "process_batch env cfg urls k w = (Some e, w2)" by simp
        with calls2 save_follows_insert_model_calls [of ps "[]"] show ?thesis
          by (simp add: fetched_model_calls)
      next
        case (Inr ds')
        with r have r': "summarize_documents env ?new ?w1 = (Inr ds', w2)" by simp
        from summarize_documents_nonempty [OF r' False] have ne: "ds' \<noteq> []" .
        note ins = process_batch_insert
          [OF \<open>web_load env (batch_urls cfg urls k) = Inr documents\<close> Some False r']
        from ins(1) have vs2: "vector_store w2 = Some db" by simp
        let ?w3 = "w2\<lparr>vector_store := Some (db\<lparr>docstore := docstore db @ ds'\<rparr>),
                    calls := calls w2 @ [AddDocuments ds']\<rparr>"
        from add_documents_cases [OF vs2, of env cfg ds']
        consider (added) "add_documents env cfg ds' w2 = (None, ?w3)"
          | (failed) e where "add_documents env cfg ds' w2
              = (Some e, w2\<lparr>calls := calls w2 @ [AddDocuments ds']\<rparr>)"
          by blast
        then show ?thesis
        proof cases
          case added
          with ins(2) have pb: "process_batch env cfg urls k w = save cfg ?w3" by simp
          have "calls (snd (save cfg ?w3)) = calls w @ WebLoad (batch_urls cfg urls k)
              # (map ModelInvoke ps @ [AddDocuments ds', SaveLocal (faiss_index_path cfg)])"
            using calls2 by (simp add: save_def called_def Let_def)
          moreover have "save_follows_insert
              (map ModelInvoke ps @ [AddDocuments ds', SaveLocal (faiss_index_path cfg)])"
            using ne by (simp add: save_follows_insert_model_calls)
          moreover have "fetched
              (map ModelInvoke ps @ [AddDocuments ds', SaveLocal (faiss_index_path cfg)]) = []"
            by (simp add: fetched_append fetched_model_calls)
          ultimately show ?thesis using pb by metis
        next
          case failed
          with ins(2) have "calls (snd (process_batch env cfg urls k w))
              = calls w @ WebLoad (batch_urls cfg urls k) # (map ModelInvoke ps @ [AddDocuments ds'])"
            using calls2 by simp
          moreover have "save_follows_insert (map ModelInvoke ps @ [AddDocuments ds'])"
            by (simp add: save_follows_insert_model_calls)
          moreover have "fetched (map ModelInvoke ps @ [AddDocuments ds']) = []"
            by (simp add: fetched_append fetched_model_calls)
          ultimately show ?thesis by metis
        qed
      qed
    qed
  qed
qed

lemma process_batches_calls:
  "\<exists>cs. calls (snd (process_batches env cfg urls ks w)) = calls w @ cs
        \<and> save_follows_insert cs"
proof (induction ks arbitrary: w)
  case Nil
  then show ?case by simp
next
  case (Cons k ks)
  obtain r w1 where step: "process_batch env cfg urls k w = (r, w1)"
    by (cases "process_batch env cfg urls k w")
  from process_batch_calls [of env cfg urls k w] step obtain cs
    where cs: "calls w1 = calls w @ WebLoad (batch_urls cfg urls k) # cs" "save_follows_insert cs"
    by auto
  show ?case
  proof (cases r)
    case None
    from Cons.IH [of w1] obtain cs'
      where cs': "calls (snd (process_batches env cfg urls ks w1)) = calls w1 @ cs'"
        "save_follows_insert cs'"
      by blast
    have "save_follows_insert ((WebLoad (batch_urls cfg urls k) # cs) @ cs')"
      using cs(2) cs'(2) by (intro save_follows_insert_append) simp_all
    moreover have "calls (snd (process_batches env cfg urls (k # ks) w))
        = calls w @ ((WebLoad (batch_urls cfg urls k) # cs) @ cs')"
      using None step cs(1) cs'(1) by simp
    ultimately show ?thesis by blast
  next
    case (Some e)
    have "save_follows_insert (WebLoad (batch_urls cfg urls k) # cs)"
      using cs(2) by simp
    moreover have "calls (snd (process_batches env cfg urls (k # ks) w))
        = calls w @ (WebLoad (batch_urls cfg urls k) # cs)"
      using Some step cs(1) by simp
    ultimately show ?thesis by blast
  qed
qed

text \<open>
  The same for a whole run: once \<open>load_or_create\<close> has returned, every save follows an
  insert of at least one document.
\<close>

lemma process_urls_calls:
  "fst (read_urls_file w) \<noteq> [] \<Longrightarrow>
   \<exists>cs. calls (snd (process_urls env cfg batch_limit urls_limit w))
          = calls (snd (load_or_create env cfg (snd (read_urls_file w)))) @ cs
        \<and> save_follows_insert cs"
proof -
  assume ne: "fst (read_urls_file w) \<noteq> []"
  obtain file_urls w0 where rd: "read_urls_file w = (file_urls, w0)"
    by (cases "read_urls_file w")
  obtain r w1 where ld: "load_or_create env cfg w0 = (r, w1)"
    by (cases "load_or_create env cfg w0")
  let ?urls = "limited_urls env cfg urls_limit file_urls"
  show ?thesis
  proof (cases "r = None \<and> batch_size cfg \<noteq> 0")
    case False
    with ne rd ld have "calls (snd (process_urls env cfg batch_limit urls_limit w)) = calls w1 @ []"
      by (cases r) (auto simp: process_urls_def)
    with rd ld show ?thesis by (metis fst_conv snd_conv save_follows_insert.simps(1))
  next
    case True
    let ?ks = "py_range (total_batches cfg ?urls batch_limit)"
    from process_batches_calls [of env cfg ?urls ?ks w1] obtain cs
      where cs: "calls (snd (process_batches env cfg ?urls ?ks w1)) = calls w1 @ cs"
        "save_follows_insert cs"
      by blast
    from True ne rd ld
    have "calls (snd (process_urls env cfg batch_limit urls_limit w))
        = calls (snd (process_batches env cfg ?urls ?ks w1))"
      by (auto simp: process_urls_def Let_def split: prod.splits option.splits)
    with cs rd ld show ?thesis by (metis snd_conv)
  qed
qed

lemma value_to_hash_summarized:
  "summarize_documents env ds w = (Inr ds', w') \<Longrightarrow>
   map (value_to_hash env) ds' = map (value_to_hash env) ds"
proof -
  assume "summarize_documents env ds w = (Inr ds', w')"
  from summarize_documents_result [OF this]
  have "map ((\<lambda>s. encode_utf8 (json_dumps (compute_doc_hash env s))) \<circ> source_and_title) ds'
      = map ((\<lambda>s. encode_utf8 (json_dumps (compute_doc_hash env s))) \<circ> source_and_title) ds"
    by (simp only: map_map [symmetric])
  then show ?thesis
    by (simp add: comp_def value_to_hash_def [abs_def])
qed

lemma value_to_hash_unique:
  "map (value_to_hash env) (unique_documents env db documents)
     = filter (\<lambda>h. h \<notin> set (existing_hashes env db)) (map (value_to_hash env) documents)"
  by (simp add: unique_documents_def filter_map comp_def)

section \<open>Deduplication within a batch\<close>

text \<open>
  C1, amended. The filter compares each candidate with the fingerprints of the store and
  with nothing else. A round of the loop that completes leaves in the store, after the
  documents it held, every candidate whose fingerprint the store did not hold, in the
  order of the batch and as often as it occurs there; when there is such a candidate the
  new store is what the disk holds at the index path afterwards, and otherwise the disk is
  as it was.
\<close>

theorem process_batch_commits_all_absent_from_store:
  assumes "web_load env (batch_urls cfg urls k) = Inr documents"
    and "vector_store w = Some db"
    and "fst (process_batch env cfg urls k w) = None"
  shows "\<exists>db'. vector_store (snd (process_batch env cfg urls k w)) = Some db'
      \<and> map (value_to_hash env) (docstore db')
        = existing_hashes env db
          @ filter (\<lambda>h. h \<notin> set (existing_hashes env db)) (map (value_to_hash env) documents)
      \<and> disk (snd (process_batch env cfg urls k w))
        = (if unique_documents env db documents = [] then disk w
           else (disk w)(faiss_index_path cfg \<mapsto> Saved db'))"
proof (cases "unique_documents env db documents = []")
  case True
  from process_batch_nothing_new [OF assms(1,2) True] value_to_hash_unique [of env db documents] True
    assms(2)
  show ?thesis by (simp add: existing_hashes_def)
next
  case False
  let ?new = "unique_documents env db documents"
  let ?w1 = "called (WebLoad (batch_urls cfg urls k)) w"
  obtain r w2 where r: "summarize_documents env ?new ?w1 = (r, w2)"
    by (cases "summarize_documents env ?new ?w1")
  show ?thesis
  proof (cases r)
    case (Inl e)
    with r process_batch_model_failure [OF assms(1,2) False] assms(3) show ?thesis by simp
  next
    case (Inr ds')
    with r have r': "summarize_documents env ?new ?w1 = (Inr ds', w2)" by simp
    note ins = process_batch_insert [OF assms(1,2) False r']
    from ins(1) have vs2: "vector_store w2 = Some db" and d2: "disk w2 = disk w" by simp_all
    let ?db' = "db\<lparr>docstore := docstore db @ ds'\<rparr>"
    let ?w3 = "w2\<lparr>vector_store := Some ?db', calls := calls w2 @ [AddDocuments ds']\<rparr>"
    from add_documents_cases [OF vs2, of env cfg ds'] ins(2) assms(3)
    have pb: "process_batch env cfg urls k w = save cfg ?w3" by auto
    with assms(3) have "disk_writable ?w3"
      by (auto simp: save_def called_def Let_def split: if_splits)
    with pb have "vector_store (snd (process_batch env cfg urls k w)) = Some ?db'"
      "disk (snd (process_batch env cfg urls k w))
         = (disk w)(faiss_index_path cfg \<mapsto> Saved ?db')"
      using d2 by (simp_all add: save_def called_def Let_def)
    moreover have "map (value_to_hash env) (docstore ?db')
        = existing_hashes env db
          @ filter (\<lambda>h. h \<notin> set (existing_hashes env db)) (map (value_to_hash env) documents)"
      using value_to_hash_summarized [OF r'] value_to_hash_unique [of env db documents]
      by (simp add: existing_hashes_def)
    ultimately show ?thesis using False by auto
  qed
qed

section \<open>A failure of the model\<close>

text \<open>
  C2, amended. A failure of the model on one new document of a batch is not caught: the
  round of the loop raises, no document of the batch is inserted or saved, the store and
  the disk are as before the batch, and the loop ends there with the same error.
\<close>

theorem model_failure_aborts_batch:
  assumes "web_load env (batch_urls cfg urls k) = Inr documents"
    and "vector_store w = Some db"
    and "d \<in> set (unique_documents env db documents)"
    and "model_invoke env (prompt (page_content d)) = Inl e"
  shows "\<exists>e'. fst (process_batch env cfg urls k w) = Some e'
      \<and> process_batches env cfg urls (k # rest) w = process_batch env cfg urls k w
      \<and> vector_store (snd (process_batch env cfg urls k w)) = Some db
      \<and> disk (snd (process_batch env cfg urls k w)) = disk w"
proof -
  let ?new = "unique_documents env db documents"
  let ?w1 = "called (WebLoad (batch_urls cfg urls k)) w"
  from assms(3) have ne: "?new \<noteq> []" by auto
  from summarize_documents_failure [OF assms(3,4), of ?w1]
  obtain e' where e': "fst (summarize_documents env ?new ?w1) = Inl e'" by blast
  then obtain w2 where r: "summarize_documents env ?new ?w1 = (Inl e', w2)"
    by (cases "summarize_documents env ?new ?w1") simp
  from process_batch_model_failure [OF assms(1,2) ne r]
  have pb: "process_batch env cfg urls k w = (Some e', w2)" .
  from summarize_documents_world [of env ?new ?w1] r
  have "vector_store w2 = vector_store w" "disk w2 = disk w"
    by (auto simp: called_def)
  with pb assms(2) show ?thesis by simp
qed

section \<open>Runs on the concrete inputs\<close>

lemmas run_defs =
  process_urls_def read_urls_file_def limited_urls_def strip_def py_isspace_def
  load_or_create_def save_def add_documents_def called_def log_at_def total_batches_def
  py_range_def upto.simps process_batch_def batch_urls_def py_slice_def py_bound_def
  unique_documents_def existing_hashes_def summarize_text_def
  Let_def

lemmas input_defs =
  env0_def cfg0_def w0_def web_page_def prompt_def empty_store_def summarized_def

lemma value_to_hash_plain_digest:
  "md5_hexdigest env = (\<lambda>b. b) \<Longrightarrow>
   value_to_hash env d = json_dumps (json_dumps (source_and_title d))"
  by (simp add: value_to_hash_def compute_doc_hash_def hash_input_eq
      hash_input_eq [unfolded hash_input_def])

lemma json_dumps_eq_iff: "json_dumps s = json_dumps t \<longleftrightarrow> s = t"
  by (rule iffI, erule json_dumps_inj, erule arg_cong)

text \<open>
  C1 as stated fails. On the source list with the URL \<open>https://a/1\<close> twice and
  \<open>https://a/2\<close> once, in batches of two and from an empty disk, the first batch commits
  both copies and the store ends with three documents.
\<close>

theorem same_batch_duplicates_counterexample:
  "batch_urls cfg0 [''https://a/1'', ''https://a/1'', ''https://a/2''] 0
     = [''https://a/1'', ''https://a/1'']
   \<and> fst (process_urls env0 cfg0 None None w0)
     = Inr (Some \<lparr>index_dim = 3, docstore =
         [summarized (web_page ''https://a/1'' ''T'' ''https://a/1''),
          summarized (web_page ''https://a/1'' ''T'' ''https://a/1''),
          summarized (web_page ''https://a/2'' ''T'' ''https://a/2'')]\<rparr>)"
  by (simp add: run_defs input_defs value_to_hash_plain_digest json_dumps_eq_iff source_and_title_def
      py_str_def)

theorem process_batch_commits_all_absent_from_store_witness:
  "web_load env0 (batch_urls cfg0 [''a'', ''a'', ''b''] 0)
     = Inr [web_page ''a'' ''T'' ''a'', web_page ''a'' ''T'' ''a'']
   \<and> fst (process_batch env0 cfg0 [''a'', ''a'', ''b''] 0 (w0\<lparr>vector_store := Some empty_store\<rparr>)) = None
   \<and> map (value_to_hash env0) (docstore (the (vector_store (snd (process_batch env0 cfg0
          [''a'', ''a'', ''b''] 0 (w0\<lparr>vector_store := Some empty_store\<rparr>))))))
     = [value_to_hash env0 (web_page ''a'' ''T'' ''a''), value_to_hash env0 (web_page ''a'' ''T'' ''a'')]
   \<and> disk (snd (process_batch env0 cfg0 [''a'', ''a'', ''b''] 0
          (w0\<lparr>vector_store := Some empty_store\<rparr>))) ''index''
     = Some (Saved \<lparr>index_dim = 3, docstore =
         [summarized (web_page ''a'' ''T'' ''a''), summarized (web_page ''a'' ''T'' ''a'')]\<rparr>)"
  using process_batch_commits_all_absent_from_store [of env0 cfg0 "[''a'', ''a'', ''b'']" 0
      "[web_page ''a'' ''T'' ''a'', web_page ''a'' ''T'' ''a'']"
      "w0\<lparr>vector_store := Some empty_store\<rparr>" empty_store]
  by (simp add: run_defs input_defs)

text \<open>
  C2 as stated fails. With three new documents in one batch and the model failing on the
  second, \<open>process_urls\<close> raises the error of the model and the store stays empty: the
  first and the third document are not committed.
\<close>

theorem model_failure_counterexample:
  "fst (process_urls env0 (cfg0\<lparr>batch_size := 3\<rparr>) None None
          (w0\<lparr>urls_file := Some [''ok1'', ''bad'', ''ok3'']\<rparr>)) = Inl ModelError
   \<and> vector_store (snd (process_urls env0 (cfg0\<lparr>batch_size := 3\<rparr>) None None
          (w0\<lparr>urls_file := Some [''ok1'', ''bad'', ''ok3'']\<rparr>))) = Some empty_store
   \<and> disk (snd (process_urls env0 (cfg0\<lparr>batch_size := 3\<rparr>) None None
          (w0\<lparr>urls_file := Some [''ok1'', ''bad'', ''ok3'']\<rparr>))) ''index'' = Some (Saved empty_store)"
  by (simp add: run_defs input_defs)

theorem model_failure_aborts_batch_witness:
  "web_load env0 (batch_urls (cfg0\<lparr>batch_size := 3\<rparr>) [''ok1'', ''bad'', ''ok3''] 0)
     = Inr [web_page ''ok1'' ''T'' ''ok1'', web_page ''bad'' ''T'' ''bad'', web_page ''ok3'' ''T'' ''ok3'']
   \<and> web_page ''bad'' ''T'' ''bad'' \<in> set (unique_documents env0 empty_store
        [web_page ''ok1'' ''T'' ''ok1'', web_page ''bad'' ''T'' ''bad'', web_page ''ok3'' ''T'' ''ok3''])
   \<and> model_invoke env0 (prompt (page_content (web_page ''bad'' ''T'' ''bad''))) = Inl ModelError
   \<and> fst (process_batches env0 (cfg0\<lparr>batch_size := 3\<rparr>) [''ok1'', ''bad'', ''ok3''] [0, 1]
        (w0\<lparr>vector_store := Some empty_store\<rparr>)) \<noteq> None
   \<and> vector_store (snd (process_batch env0 (cfg0\<lparr>batch_size := 3\<rparr>) [''ok1'', ''bad'', ''ok3''] 0
        (w0\<lparr>vector_store := Some empty_store\<rparr>))) = Some empty_store"
  using model_failure_aborts_batch [of env0 "cfg0\<lparr>batch_size := 3\<rparr>" "[''ok1'', ''bad'', ''ok3'']" 0
      "[web_page ''ok1'' ''T'' ''ok1'', web_page ''bad'' ''T'' ''bad'', web_page ''ok3'' ''T'' ''ok3'']"
      "w0\<lparr>vector_store := Some empty_store\<rparr>" empty_store "web_page ''bad'' ''T'' ''bad''"
      ModelError "[1]"]
  by (auto simp: batch_urls_def py_slice_def py_bound_def unique_documents_def existing_hashes_def
      input_defs)

section \<open>Batches without new documents\<close>

text \<open>
  C7. A round of the loop whose fetched documents are all in the store already changes
  nothing but the record of the fetch: no insert, no save, the store in memory and the
  disk as before. Among the calls that the loop over the batches adds, from whatever
  state it starts, every save comes directly after an insert of at least one document;
  and so it is among the calls of a whole run after \<open>load_or_create\<close> has returned.
\<close>

theorem empty_batch_leaves_store_untouched:
  "(web_load env (batch_urls cfg urls k) = Inr documents \<and> vector_store w = Some db
      \<and> unique_documents env db documents = []
    \<longrightarrow> process_batch env cfg urls k w
         = (None, w\<lparr>calls := calls w @ [WebLoad (batch_urls cfg urls k)]\<rparr>))
   \<and> (\<exists>cs. calls (snd (process_batches env cfg urls ks w)) = calls w @ cs
          \<and> save_follows_insert cs)
   \<and> (fst (read_urls_file w) \<noteq> []
    \<longrightarrow> (\<exists>cs. calls (snd (process_urls env cfg batch_limit urls_limit w))
                = calls (snd (load_or_create env cfg (snd (read_urls_file w)))) @ cs
              \<and> save_follows_insert cs))"
  using process_batch_nothing_new [of env cfg urls k documents w db]
    process_batches_calls [of env cfg urls ks w]
    process_urls_calls [of w env cfg batch_limit urls_limit]
  by blast

theorem empty_batch_leaves_store_untouched_witness:
  "unique_documents env0 \<lparr>index_dim = 3, docstore = [summarized (web_page ''a'' ''T'' ''a'')]\<rparr>
      [web_page ''a'' ''T'' ''a'', web_page ''a'' ''T'' ''a''] = []
   \<and> process_batch env0 cfg0 [''a'', ''a'', ''b''] 0
        (w0\<lparr>vector_store := Some \<lparr>index_dim = 3, docstore = [summarized (web_page ''a'' ''T'' ''a'')]\<rparr>\<rparr>)
      = (None, w0\<lparr>vector_store := Some \<lparr>index_dim = 3, docstore = [summarized (web_page ''a'' ''T'' ''a'')]\<rparr>,
                    calls := [WebLoad [''a'', ''a'']]\<rparr>)
   \<and> fst (read_urls_file w0) \<noteq> []
   \<and> (\<exists>cs. calls (snd (process_urls env0 cfg0 None None w0))
            = [EmbedQuery ''hello world'', SaveLocal ''index''] @ cs
          \<and> save_follows_insert cs)"
proof -
  note round = empty_batch_leaves_store_untouched [of env0 cfg0 "[''a'', ''a'', ''b'']" 0
      "[web_page ''a'' ''T'' ''a'', web_page ''a'' ''T'' ''a'']"
      "w0\<lparr>vector_store := Some \<lparr>index_dim = 3, docstore = [summarized (web_page ''a'' ''T'' ''a'')]\<rparr>\<rparr>"
      "\<lparr>index_dim = 3, docstore = [summarized (web_page ''a'' ''T'' ''a'')]\<rparr>" "[]"]
  note run = empty_batch_leaves_store_untouched [of env0 cfg0 "[]" 0 "[]" w0 empty_store "[]"
      None None]
  have new: "unique_documents env0 \<lparr>index_dim = 3, docstore = [summarized (web_page ''a'' ''T'' ''a'')]\<rparr>
      [web_page ''a'' ''T'' ''a'', web_page ''a'' ''T'' ''a''] = []"
    by (simp add: unique_documents_def existing_hashes_def value_to_hash_def source_and_title_def
        input_defs)
  have fetch: "web_load env0 (batch_urls cfg0 [''a'', ''a'', ''b''] 0)
      = Inr [web_page ''a'' ''T'' ''a'', web_page ''a'' ''T'' ''a'']"
    by (simp add: batch_urls_def py_slice_def py_bound_def input_defs)
  have urls: "fst (read_urls_file w0) \<noteq> []"
    by (simp add: read_urls_file_def strip_def py_isspace_def w0_def)
  have boot: "calls (snd (load_or_create env0 cfg0 (snd (read_urls_file w0))))
      = [EmbedQuery ''hello world'', SaveLocal ''index'']"
    by (simp add: read_urls_file_def load_or_create_def save_def called_def log_at_def
        input_defs)
  from round new fetch have "process_batch env0 cfg0 [''a'', ''a'', ''b''] 0
        (w0\<lparr>vector_store := Some \<lparr>index_dim = 3, docstore = [summarized (web_page ''a'' ''T'' ''a'')]\<rparr>\<rparr>)
      = (None, w0\<lparr>vector_store := Some \<lparr>index_dim = 3, docstore = [summarized (web_page ''a'' ''T'' ''a'')]\<rparr>,
                    calls := [WebLoad [''a'', ''a'']]\<rparr>)"
    by (simp add: batch_urls_def py_slice_def py_bound_def w0_def cfg0_def)
  moreover from run urls boot
  have "\<exists>cs. calls (snd (process_urls env0 cfg0 None None w0))
            = [EmbedQuery ''hello world'', SaveLocal ''index''] @ cs
          \<and> save_follows_insert cs"
    by simp
  ultimately show ?thesis using new urls by blast
qed

section \<open>Batches\<close>
















end
